theory Spec2Isabelle
  imports Main "HOL-Library.AList"
begin

section \<open>The task scheduler service (\<^verbatim>\<open>TaskSchedulerService\<close>)\<close>

text \<open>
  A shallow embedding of the class \<^verbatim>\<open>TaskSchedulerService\<close>. The service object becomes a
  record that every operation takes and returns. Three things lie outside the class and are
  inputs of the model:
  \<^item> the \<^verbatim>\<open>node-cron\<close> library (\<^verbatim>\<open>cron.validate\<close>, \<^verbatim>\<open>cron.schedule\<close>, \<^verbatim>\<open>nextDate\<close>): a
    record of functions, passed to every operation that calls it;
  \<^item> the wall clock: every evaluation of \<^verbatim>\<open>new Date()\<close> is a parameter of the operation that
    makes it, in milliseconds;
  \<^item> the handler: what one invocation of \<^verbatim>\<open>taskObj.task()\<close> settles with is a parameter of
    \<open>runTask\<close>. A handler that never settles is the state after \<open>runTask_begin\<close>, for ever.
  The listeners of the event emitter are part of the service: for each event, whether a
  listener raises when the event is emitted, and what. Handlers and listeners are taken not
  to call back into the service. \<open>runTask\<close> runs the part before the \<^verbatim>\<open>await\<close> and the part
  after it back to back: operations that the event loop interleaves while a handler is in
  flight are not part of this model.
\<close>

subsection \<open>JavaScript values\<close>

type_synonym time = int

datatype js_value =
    JUndefined
  | JNull
  | JBool bool
  | JNum int
  | JStr string
  | JFun nat
  | JObj "(string \<times> js_value) list"

text \<open>\<^verbatim>\<open>typeof v === 'function'\<close>\<close>

fun is_function :: "js_value \<Rightarrow> bool" where
  "is_function (JFun f) = True"
| "is_function v = False"

text \<open>Truthiness, as \<^verbatim>\<open>||\<close> tests it.\<close>

fun truthy :: "js_value \<Rightarrow> bool" where
  "truthy JUndefined = False"
| "truthy JNull = False"
| "truthy (JBool b) = b"
| "truthy (JNum n) = (n \<noteq> 0)"
| "truthy (JStr s) = (s \<noteq> [])"
| "truthy (JFun f) = True"
| "truthy (JObj ps) = True"

definition js_or :: "js_value \<Rightarrow> js_value \<Rightarrow> js_value" where
  "js_or a b = (if truthy a then a else b)"

text \<open>Reading a property of an object given by its own properties: absent is \<^verbatim>\<open>undefined\<close>.\<close>

definition own_prop :: "(string \<times> js_value) list \<Rightarrow> string \<Rightarrow> js_value" where
  "own_prop ps k = (case map_of ps k of None \<Rightarrow> JUndefined | Some v \<Rightarrow> v)"

text \<open>
  The message of the \<^verbatim>\<open>TypeError\<close> that reading a property of \<^verbatim>\<open>null\<close> or \<^verbatim>\<open>undefined\<close>
  raises, and of the one that calling a value that is not a function raises. The wording is
  the engine's; nothing below depends on it.
\<close>

definition cannot_read :: "js_value \<Rightarrow> string \<Rightarrow> string" where
  "cannot_read v k =
     ''Cannot read properties of '' @ (if v = JNull then ''null'' else ''undefined'')
       @ '' (reading '' @ [CHR 0x27] @ k @ [CHR 0x27] @ '')''"

definition not_a_function :: string where
  "not_a_function = ''taskObj.task is not a function''"

text \<open>An error object with the message \<open>m\<close>, as the engine and the library raise them.\<close>

definition Error_obj :: "string \<Rightarrow> js_value" where
  "Error_obj m = JObj [(''message'', JStr m)]"

text \<open>
  \<^verbatim>\<open>v.k\<close> for any value \<open>v\<close>: \<open>Inl m\<close> is a raised \<^verbatim>\<open>TypeError\<close> with message \<open>m\<close>. Functions
  and primitive values have no property named \<^verbatim>\<open>run\<close> or \<^verbatim>\<open>message\<close>, the two names read here.
\<close>

fun get_prop :: "js_value \<Rightarrow> string \<Rightarrow> string + js_value" where
  "get_prop JUndefined k = Inl (cannot_read JUndefined k)"
| "get_prop JNull k = Inl (cannot_read JNull k)"
| "get_prop (JObj ps) k = Inr (own_prop ps k)"
| "get_prop v k = Inr JUndefined"

subsection \<open>The cron library\<close>

text \<open>
  \<open>validate e\<close> is \<^verbatim>\<open>cron.validate(e)\<close>. \<open>schedule_raises e tz\<close> is \<open>Some m\<close> when
  \<^verbatim>\<open>cron.schedule(e, f, {timezone: tz, ...})\<close> raises an error with message \<open>m\<close>.
  \<open>nextDate e tz now\<close> is the date that \<^verbatim>\<open>task.nextDate().toDate()\<close> gives for a task made
  from \<open>e\<close> and \<open>tz\<close> when the clock reads \<open>now\<close>, and \<open>None\<close> when either call raises.
\<close>

record cron =
  validate :: "string \<Rightarrow> bool"
  schedule_raises :: "string \<Rightarrow> js_value \<Rightarrow> string option"
  nextDate :: "string \<Rightarrow> js_value \<Rightarrow> time \<Rightarrow> time option"

subsection \<open>Data model\<close>

datatype status = Scheduled | Running | Completed | Failed | Cancelled

record run_stats =
  runs :: int
  errors :: int

text \<open>
  The task object. \<open>lastResult\<close> and \<open>lastError\<close> are absent until first assigned;
  \<open>cronTask\<close> is the handle of the trigger that \<^verbatim>\<open>cron.schedule\<close> returned.
\<close>

record task_obj =
  task_id :: string
  schedule :: string
  task :: js_value
  options :: "(string \<times> js_value) list"
  status :: status
  created :: time
  lastRun :: "time option"
  nextRun :: "time option"
  task_stats :: run_stats
  lastResult :: "js_value option"
  lastError :: "js_value option"
  cronTask :: nat

record service_stats =
  scheduled :: int
  running :: int
  completed :: int
  failed :: int
  cancelled :: int

datatype event =
    TaskScheduled string string
  | TaskRunning string
  | TaskCompleted string js_value
  | TaskFailed string js_value
  | TaskCancelled string
  | TaskDeleted string

text \<open>
  The service. \<open>options_maxTasks\<close> is \<^verbatim>\<open>this.options.maxTasks\<close>, a count of tasks;
  \<open>tasks\<close> is the \<^verbatim>\<open>Map\<close> in insertion order; \<open>triggers h\<close> tells whether the
  trigger with handle \<open>h\<close> is running, \<open>next_handle\<close> is the handle the next
  \<^verbatim>\<open>cron.schedule\<close> returns; \<open>immediates\<close> holds the task ids of the \<^verbatim>\<open>setImmediate\<close>
  callbacks not yet run. Of the event emitter that the class extends: \<open>listeners ev\<close> is
  \<open>Some e\<close> when a listener registered for the event \<open>ev\<close> raises \<open>e\<close>, and \<open>emitted\<close> is the
  log of the events emitted. \<open>calls\<close> is the log of the handlers that were called.
\<close>

record scheduler =
  options_maxTasks :: nat
  tasks :: "(string \<times> task_obj) list"
  stats :: service_stats
  triggers :: "nat \<Rightarrow> bool"
  next_handle :: nat
  listeners :: "event \<Rightarrow> js_value option"
  emitted :: "event list"
  calls :: "js_value list"
  immediates :: "string list"

text \<open>
  The results. Each error the code returns is a constructor:
  \<^verbatim>\<open>'Task ID already exists'\<close>, \<^verbatim>\<open>'Maximum task limit reached'\<close>,
  \<^verbatim>\<open>'Invalid cron schedule expression'\<close>, \<^verbatim>\<open>'Task not found'\<close>, the failure of the handler
  (\<^verbatim>\<open>{success: false, taskId, error: error.message}\<close>) and what the outer \<^verbatim>\<open>catch\<close> returns
  (\<^verbatim>\<open>{success: false, error: error.message}\<close>). \<open>Uncaught m\<close> is no result: the call itself
  raises a \<^verbatim>\<open>TypeError\<close> with message \<open>m\<close>, from the read of \<^verbatim>\<open>error.message\<close> in the outer
  \<^verbatim>\<open>catch\<close>.
\<close>

datatype error =
    DuplicateTaskId
  | TaskLimitExceeded
  | InvalidScheduleExpression
  | TaskNotFound
  | HandlerExecutionError string js_value
  | Caught js_value
  | Uncaught string

datatype outcome = Resolved js_value | Rejected js_value

record task_view =
  view_id :: string
  view_schedule :: string
  view_status :: status
  view_created :: time
  view_lastRun :: "time option"
  view_nextRun :: "time option"
  view_options :: "(string \<times> js_value) list"
  view_stats :: run_stats

record stats_report = service_stats +
  taskCount :: nat
  maxTasks :: nat

subsection \<open>Operations\<close>

text \<open>
  The constructor: \<^verbatim>\<open>{maxTasks: 100, ...options}\<close>, an empty map, counters at zero, no
  listener.
\<close>

definition TaskSchedulerService :: "nat option \<Rightarrow> scheduler" where
  "TaskSchedulerService opt_maxTasks =
     \<lparr> options_maxTasks = (case opt_maxTasks of None \<Rightarrow> 100 | Some n \<Rightarrow> n),
       tasks = [],
       stats = \<lparr> scheduled = 0, running = 0, completed = 0, failed = 0, cancelled = 0 \<rparr>,
       triggers = (\<lambda>h. False),
       next_handle = 0,
       listeners = (\<lambda>ev. None),
       emitted = [],
       calls = [],
       immediates = [] \<rparr>"

text \<open>The name under which an event is emitted.\<close>

fun event_name :: "event \<Rightarrow> string" where
  "event_name (TaskScheduled taskId expr) = ''task:scheduled''"
| "event_name (TaskRunning taskId) = ''task:running''"
| "event_name (TaskCompleted taskId result) = ''task:completed''"
| "event_name (TaskFailed taskId msg) = ''task:failed''"
| "event_name (TaskCancelled taskId) = ''task:cancelled''"
| "event_name (TaskDeleted taskId) = ''task:deleted''"

text \<open>
  \<^verbatim>\<open>on(name, listener)\<close>, inherited from the event emitter. \<open>listener ev\<close> is what the
  listener raises when called with the event \<open>ev\<close>, if anything. Listeners are called in the
  order they were added, so the new one is reached when none before it raises.
\<close>

definition on :: "scheduler \<Rightarrow> string \<Rightarrow> (event \<Rightarrow> js_value option) \<Rightarrow> scheduler" where
  "on s name listener =
     s \<lparr> listeners :=
           (\<lambda>ev. case listeners s ev of
                   Some e \<Rightarrow> Some e
                 | None \<Rightarrow> if event_name ev = name then listener ev else None) \<rparr>"

text \<open>
  \<^verbatim>\<open>this.emit(name, payload)\<close>: the listeners run inside the call; \<open>Some e\<close> is what one
  of them raised, which \<^verbatim>\<open>emit\<close> raises in turn.
\<close>

definition emit :: "scheduler \<Rightarrow> event \<Rightarrow> js_value option \<times> scheduler" where
  "emit s ev = (listeners s ev, s \<lparr> emitted := emitted s @ [ev] \<rparr>)"

text \<open>
  The outer \<^verbatim>\<open>catch (error)\<close> of every operation:
  \<^verbatim>\<open>return {success: false, error: error.message}\<close>.
\<close>

definition outer_catch :: "js_value \<Rightarrow> error" where
  "outer_catch e = (case get_prop e ''message'' of Inl m \<Rightarrow> Uncaught m | Inr msg \<Rightarrow> Caught msg)"

text \<open>
  \<^verbatim>\<open>calculateNextRun(schedule, timezone = 'UTC')\<close>: a temporary task that is never started,
  its next date, and the current date when anything raises.
\<close>

definition calculateNextRun :: "cron \<Rightarrow> string \<Rightarrow> js_value \<Rightarrow> time \<Rightarrow> time" where
  "calculateNextRun lib expr timezone now =
     (let tz = (if timezone = JUndefined then JStr ''UTC'' else timezone) in
      case schedule_raises lib expr tz of
        Some m \<Rightarrow> now
      | None \<Rightarrow> (case nextDate lib expr tz now of None \<Rightarrow> now | Some d \<Rightarrow> d))"

text \<open>
  The options of a task object:
  \<^verbatim>\<open>{timezone: options.timezone || 'UTC', runOnStart: options.runOnStart || false, ...options}\<close>.
  The spread comes last and copies the properties of \<open>opts\<close> in their order: a property
  that \<open>opts\<close> has wins over the default, a new one is added at the end.
\<close>

definition task_options :: "(string \<times> js_value) list \<Rightarrow> (string \<times> js_value) list" where
  "task_options opts =
     fold (\<lambda>(k, v). AList.update k v) opts
       [(''timezone'', js_or (own_prop opts ''timezone'') (JStr ''UTC'')),
        (''runOnStart'', js_or (own_prop opts ''runOnStart'') (JBool False))]"

text \<open>
  \<^verbatim>\<open>scheduleTask(taskId, schedule, task, options = {})\<close>. \<open>t_created\<close> is the clock when the
  task object is built, \<open>t_next\<close> the clock when the next run is calculated. When a
  listener of \<^verbatim>\<open>task:scheduled\<close> raises, the task is stored already and the call returns
  through the \<^verbatim>\<open>catch\<close>.
\<close>

definition scheduleTask ::
  "cron \<Rightarrow> scheduler \<Rightarrow> string \<Rightarrow> string \<Rightarrow> js_value \<Rightarrow> (string \<times> js_value) list \<Rightarrow> time \<Rightarrow> time
     \<Rightarrow> (error + string \<times> time) \<times> scheduler" where
  "scheduleTask lib s taskId expr fn opts t_created t_next =
     (if map_of (tasks s) taskId \<noteq> None then (Inl DuplicateTaskId, s)
      else if options_maxTasks s \<le> length (tasks s) then (Inl TaskLimitExceeded, s)
      else if \<not> validate lib expr then (Inl InvalidScheduleExpression, s)
      else
        case (if is_function fn then Inr fn else get_prop fn ''run'') of
          Inl m \<Rightarrow> (Inl (outer_catch (Error_obj m)), s)
        | Inr handler \<Rightarrow>
            (let opts' = task_options opts
             in case schedule_raises lib expr (own_prop opts' ''timezone'') of
                  Some m \<Rightarrow> (Inl (outer_catch (Error_obj m)), s)
                | None \<Rightarrow>
                    (let h = next_handle s;
                         next = calculateNextRun lib expr (own_prop opts' ''timezone'') t_next;
                         taskObj =
                           \<lparr> task_id = taskId, schedule = expr, task = handler,
                             options = opts', status = Scheduled, created = t_created,
                             lastRun = None, nextRun = Some next,
                             task_stats = \<lparr> runs = 0, errors = 0 \<rparr>,
                             lastResult = None, lastError = None, cronTask = h \<rparr>;
                         s1 = s \<lparr> tasks := AList.update taskId taskObj (tasks s),
                                  stats := (stats s) \<lparr> scheduled := scheduled (stats s) + 1 \<rparr>,
                                  triggers := (triggers s) (h := True),
                                  next_handle := h + 1 \<rparr>
                     in case emit s1 (TaskScheduled taskId expr) of
                          (Some e, s2) \<Rightarrow> (Inl (outer_catch e), s2)
                        | (None, s2) \<Rightarrow>
                            (Inr (taskId, next),
                             s2 \<lparr> immediates :=
                                    (if truthy (own_prop opts' ''runOnStart'')
                                     then immediates s2 @ [taskId] else immediates s2) \<rparr>))))"

text \<open>
  \<^verbatim>\<open>runTask\<close> up to the \<^verbatim>\<open>await\<close>: the lookup, \<^verbatim>\<open>status = 'running'\<close>, \<^verbatim>\<open>lastRun\<close>, the
  \<open>running\<close> counter and the event. \<open>Inl\<close> is a return before the handler is called: the
  task is not found, or a listener of \<^verbatim>\<open>task:running\<close> raised. \<open>Inr\<close> carries the task
  object, as the rest of \<^verbatim>\<open>runTask\<close> keeps writing to that object.
\<close>

definition runTask_begin ::
  "scheduler \<Rightarrow> string \<Rightarrow> time \<Rightarrow> (error \<times> scheduler) + (task_obj \<times> scheduler)" where
  "runTask_begin s taskId t_run =
     (case map_of (tasks s) taskId of
        None \<Rightarrow> Inl (TaskNotFound, s)
      | Some taskObj0 \<Rightarrow>
          (let taskObj = taskObj0 \<lparr> status := Running, lastRun := Some t_run \<rparr>;
               s1 = s \<lparr> tasks := AList.update taskId taskObj (tasks s),
                        stats := (stats s) \<lparr> running := running (stats s) + 1 \<rparr> \<rparr>
           in case emit s1 (TaskRunning taskId) of
                (Some e, s2) \<Rightarrow> Inl (outer_catch e, s2)
              | (None, s2) \<Rightarrow> Inr (taskObj, s2)))"

text \<open>
  \<^verbatim>\<open>await Promise.resolve(taskObj.task())\<close>: calling a value that is not a function raises
  a \<^verbatim>\<open>TypeError\<close> and calls nothing; a function is called, which the log records, and
  settles with the outcome of this invocation.
\<close>

definition invoke :: "scheduler \<Rightarrow> js_value \<Rightarrow> outcome \<Rightarrow> outcome \<times> scheduler" where
  "invoke s handler outcome_of_call =
     (if is_function handler then (outcome_of_call, s \<lparr> calls := calls s @ [handler] \<rparr>)
      else (Rejected (Error_obj not_a_function), s))"

text \<open>
  The inner \<^verbatim>\<open>catch (error)\<close> of \<^verbatim>\<open>runTask\<close>. \<^verbatim>\<open>error.message\<close> is read after the first two
  assignments; when that read raises, the outer \<^verbatim>\<open>catch\<close> takes over and the rest of the
  branch is skipped. So it is when a listener of \<^verbatim>\<open>task:failed\<close> raises.
\<close>

definition runTask_failed ::
  "cron \<Rightarrow> scheduler \<Rightarrow> string \<Rightarrow> task_obj \<Rightarrow> js_value \<Rightarrow> time
     \<Rightarrow> (error + string \<times> js_value) \<times> scheduler" where
  "runTask_failed lib s taskId taskObj err t_next =
     (let taskObj1 = taskObj
            \<lparr> task_stats := (task_stats taskObj) \<lparr> errors := errors (task_stats taskObj) + 1 \<rparr>,
              status := Failed \<rparr>
      in case get_prop err ''message'' of
           Inl m \<Rightarrow>
             (Inl (outer_catch (Error_obj m)),
              s \<lparr> tasks := AList.update taskId taskObj1 (tasks s) \<rparr>)
         | Inr msg \<Rightarrow>
             (let taskObj2 = taskObj1 \<lparr> lastError := Some msg \<rparr>;
                  stats1 = (stats s) \<lparr> running := running (stats s) - 1,
                                       failed := failed (stats s) + 1 \<rparr>;
                  taskObj3 = taskObj2
                    \<lparr> nextRun := Some (calculateNextRun lib (schedule taskObj2)
                                         (own_prop (options taskObj2) ''timezone'') t_next) \<rparr>;
                  s1 = s \<lparr> tasks := AList.update taskId taskObj3 (tasks s), stats := stats1 \<rparr>
              in case emit s1 (TaskFailed taskId msg) of
                   (Some e, s2) \<Rightarrow> (Inl (outer_catch e), s2)
                 | (None, s2) \<Rightarrow> (Inl (HandlerExecutionError taskId msg), s2)))"

text \<open>
  \<^verbatim>\<open>runTask\<close> after the \<^verbatim>\<open>await\<close>, for the task object \<open>taskObj\<close> stored under \<open>taskId\<close>.
  \<^verbatim>\<open>task:completed\<close> is emitted inside the inner \<^verbatim>\<open>try\<close>: what a listener raises there is
  caught by the inner \<^verbatim>\<open>catch\<close>, at the clock reading \<open>t_retry\<close>.
\<close>

definition runTask_settle ::
  "cron \<Rightarrow> scheduler \<Rightarrow> string \<Rightarrow> task_obj \<Rightarrow> outcome \<Rightarrow> time \<Rightarrow> time
     \<Rightarrow> (error + string \<times> js_value) \<times> scheduler" where
  "runTask_settle lib s taskId taskObj settled t_next t_retry =
     (case settled of
        Resolved result \<Rightarrow>
          (let taskObj1 = taskObj
                 \<lparr> task_stats := (task_stats taskObj) \<lparr> runs := runs (task_stats taskObj) + 1 \<rparr>,
                   status := Completed,
                   lastResult := Some result \<rparr>;
               stats1 = (stats s) \<lparr> running := running (stats s) - 1,
                                    completed := completed (stats s) + 1 \<rparr>;
               taskObj2 = taskObj1
                 \<lparr> nextRun := Some (calculateNextRun lib (schedule taskObj1)
                                      (own_prop (options taskObj1) ''timezone'') t_next) \<rparr>;
               s1 = s \<lparr> tasks := AList.update taskId taskObj2 (tasks s), stats := stats1 \<rparr>
           in case emit s1 (TaskCompleted taskId result) of
                (Some e, s2) \<Rightarrow> runTask_failed lib s2 taskId taskObj2 e t_retry
              | (None, s2) \<Rightarrow> (Inr (taskId, result), s2))
      | Rejected err \<Rightarrow> runTask_failed lib s taskId taskObj err t_next)"

text \<open>
  \<^verbatim>\<open>runTask(taskId)\<close>, with the outcome of the handler's invocation. \<open>t_run\<close> is the clock at
  \<^verbatim>\<open>lastRun = new Date()\<close>, \<open>t_next\<close> the clock when the next run is calculated, \<open>t_retry\<close>
  the clock when it is calculated again after a listener of \<^verbatim>\<open>task:completed\<close> raised.
\<close>

definition runTask ::
  "cron \<Rightarrow> scheduler \<Rightarrow> string \<Rightarrow> outcome \<Rightarrow> time \<Rightarrow> time \<Rightarrow> time
     \<Rightarrow> (error + string \<times> js_value) \<times> scheduler" where
  "runTask lib s taskId outcome_of_call t_run t_next t_retry =
     (case runTask_begin s taskId t_run of
        Inl (e, s1) \<Rightarrow> (Inl e, s1)
      | Inr (taskObj, s1) \<Rightarrow>
          (case invoke s1 (task taskObj) outcome_of_call of
             (settled, s2) \<Rightarrow> runTask_settle lib s2 taskId taskObj settled t_next t_retry))"

text \<open>\<^verbatim>\<open>cancelTask(taskId)\<close>\<close>

definition cancelTask :: "scheduler \<Rightarrow> string \<Rightarrow> (error + string) \<times> scheduler" where
  "cancelTask s taskId =
     (case map_of (tasks s) taskId of
        None \<Rightarrow> (Inl TaskNotFound, s)
      | Some taskObj \<Rightarrow>
          (let s1 = s \<lparr> triggers := (triggers s) (cronTask taskObj := False),
                        tasks := AList.update taskId (taskObj \<lparr> status := Cancelled \<rparr>) (tasks s),
                        stats := (stats s) \<lparr> cancelled := cancelled (stats s) + 1 \<rparr> \<rparr>
           in case emit s1 (TaskCancelled taskId) of
                (Some e, s2) \<Rightarrow> (Inl (outer_catch e), s2)
              | (None, s2) \<Rightarrow> (Inr taskId, s2)))"

text \<open>\<^verbatim>\<open>deleteTask(taskId)\<close>\<close>

definition deleteTask :: "scheduler \<Rightarrow> string \<Rightarrow> (error + string) \<times> scheduler" where
  "deleteTask s taskId =
     (case map_of (tasks s) taskId of
        None \<Rightarrow> (Inl TaskNotFound, s)
      | Some taskObj \<Rightarrow>
          (let s1 = s \<lparr> triggers := (triggers s) (cronTask taskObj := False),
                        tasks := AList.delete taskId (tasks s) \<rparr>
           in case emit s1 (TaskDeleted taskId) of
                (Some e, s2) \<Rightarrow> (Inl (outer_catch e), s2)
              | (None, s2) \<Rightarrow> (Inr taskId, s2)))"

text \<open>The projection that \<^verbatim>\<open>getTaskInfo\<close> and \<^verbatim>\<open>listTasks\<close> return for a task object.\<close>

definition view_of :: "task_obj \<Rightarrow> task_view" where
  "view_of taskObj =
     \<lparr> view_id = task_id taskObj, view_schedule = schedule taskObj,
       view_status = status taskObj, view_created = created taskObj,
       view_lastRun = lastRun taskObj, view_nextRun = nextRun taskObj,
       view_options = options taskObj, view_stats = task_stats taskObj \<rparr>"

definition getTaskInfo :: "scheduler \<Rightarrow> string \<Rightarrow> error + task_view" where
  "getTaskInfo s taskId =
     (case map_of (tasks s) taskId of
        None \<Rightarrow> Inl TaskNotFound
      | Some taskObj \<Rightarrow> Inr (view_of taskObj))"

definition listTasks :: "scheduler \<Rightarrow> task_view list" where
  "listTasks s = map (\<lambda>(taskId, taskObj). view_of taskObj) (tasks s)"

definition getStats :: "scheduler \<Rightarrow> stats_report" where
  "getStats s =
     \<lparr> scheduled = scheduled (stats s), running = running (stats s),
       completed = completed (stats s), failed = failed (stats s),
       cancelled = cancelled (stats s),
       taskCount = length (tasks s), maxTasks = options_maxTasks s \<rparr>"

subsection \<open>Sequences of operations\<close>

datatype op =
    ScheduleTask string string js_value "(string \<times> js_value) list" time time
  | RunTask string outcome time time time
  | CancelTask string
  | DeleteTask string
  | On string "event \<Rightarrow> js_value option"

fun apply_op :: "cron \<Rightarrow> scheduler \<Rightarrow> op \<Rightarrow> scheduler" where
  "apply_op lib s (ScheduleTask taskId expr fn opts t_created t_next) =
     snd (scheduleTask lib s taskId expr fn opts t_created t_next)"
| "apply_op lib s (RunTask taskId outcome_of_call t_run t_next t_retry) =
     snd (runTask lib s taskId outcome_of_call t_run t_next t_retry)"
| "apply_op lib s (CancelTask taskId) = snd (cancelTask s taskId)"
| "apply_op lib s (DeleteTask taskId) = snd (deleteTask s taskId)"
| "apply_op lib s (On name listener) = on s name listener"

definition run_ops :: "cron \<Rightarrow> scheduler \<Rightarrow> op list \<Rightarrow> scheduler" where
  "run_ops lib s ops = foldl (apply_op lib) s ops"

text \<open>
  A registration is a \<^verbatim>\<open>scheduleTask\<close> call that enters its task in the registry.
  \<open>registers lib s k x\<close>: the operation \<open>x\<close>, applied to \<open>s\<close>, is a registration under the id
  \<open>k\<close>. \<open>registered_again lib s k xs\<close>: some operation of the run \<open>xs\<close> from \<open>s\<close> is one.
  \<open>registrations lib s xs\<close> counts the registrations of the run, under any id.
\<close>

fun registers :: "cron \<Rightarrow> scheduler \<Rightarrow> string \<Rightarrow> op \<Rightarrow> bool" where
  "registers lib s k (ScheduleTask taskId expr fn opts t_created t_next) =
     (taskId = k \<and> map_of (tasks s) k = None \<and>
      map_of (tasks (snd (scheduleTask lib s taskId expr fn opts t_created t_next))) k \<noteq> None)"
| "registers lib s k other = False"

fun registered_again :: "cron \<Rightarrow> scheduler \<Rightarrow> string \<Rightarrow> op list \<Rightarrow> bool" where
  "registered_again lib s k [] = False"
| "registered_again lib s k (x # xs) =
     (registers lib s k x \<or> registered_again lib (apply_op lib s x) k xs)"

fun is_registration :: "cron \<Rightarrow> scheduler \<Rightarrow> op \<Rightarrow> bool" where
  "is_registration lib s (ScheduleTask taskId expr fn opts t_created t_next) =
     registers lib s taskId (ScheduleTask taskId expr fn opts t_created t_next)"
| "is_registration lib s other = False"

fun registrations :: "cron \<Rightarrow> scheduler \<Rightarrow> op list \<Rightarrow> nat" where
  "registrations lib s [] = 0"
| "registrations lib s (x # xs) =
     (if is_registration lib s x then 1 else 0) + registrations lib (apply_op lib s x) xs"

subsection \<open>Example inputs\<close>

text \<open>
  The library on the inputs used below, as \<^verbatim>\<open>node-cron\<close> answers them: the expression
  \<^verbatim>\<open>* * * * *\<close> is valid and \<^verbatim>\<open>every minute\<close> is not, \<^verbatim>\<open>cron.schedule\<close> does not raise, and the
  task it returns has no method \<^verbatim>\<open>nextDate\<close>, so that call raises.
\<close>

definition node_cron :: cron where
  "node_cron =
     \<lparr> validate = (\<lambda>e. e = ''* * * * *''),
       schedule_raises = (\<lambda>e tz. None),
       nextDate = (\<lambda>e tz now. None) \<rparr>"

text \<open>A service with room for two tasks, and the same after registering \<^verbatim>\<open>t1\<close>.\<close>

definition service0 :: scheduler where
  "service0 = TaskSchedulerService (Some 2)"

definition service1 :: scheduler where
  "service1 = snd (scheduleTask node_cron service0 ''t1'' ''* * * * *'' (JFun 0) [] 1000 1000)"

text \<open>The same after cancelling \<^verbatim>\<open>t1\<close>, and a service with room for one task that holds \<^verbatim>\<open>t1\<close>.\<close>

definition service_cancelled :: scheduler where
  "service_cancelled = snd (cancelTask service1 ''t1'')"

definition service_full :: scheduler where
  "service_full =
     snd (scheduleTask node_cron (TaskSchedulerService (Some 1))
            ''t1'' ''* * * * *'' (JFun 0) [] 1000 1000)"

text \<open>
  A service whose task \<^verbatim>\<open>t2\<close> was registered with an object that has no \<^verbatim>\<open>run\<close> method,
  and then cancelled.
\<close>

definition service_unrunnable_cancelled :: scheduler where
  "service_unrunnable_cancelled =
     snd (cancelTask
            (snd (scheduleTask node_cron service0 ''t2'' ''* * * * *'' (JObj []) [] 1000 1000))
            ''t2'')"

text \<open>
  A listener that raises an error whatever it is called with, and the services above with
  that listener on one event.
\<close>

definition failing_observer :: "event \<Rightarrow> js_value option" where
  "failing_observer ev = Some (Error_obj ''observer failed'')"

definition service1_completed_observed :: scheduler where
  "service1_completed_observed = on service1 ''task:completed'' failing_observer"

definition service1_deleted_observed :: scheduler where
  "service1_deleted_observed = on service1 ''task:deleted'' failing_observer"

definition service_cancelled_observed :: scheduler where
  "service_cancelled_observed = on service_cancelled ''task:running'' failing_observer"

section \<open>Properties\<close>

subsection \<open>Auxiliary facts\<close>

lemma length_update:
  "length (AList.update k v al) = (if map_of al k = None then Suc (length al) else length al)"
  by (induction al) auto

lemma outer_catch_Error_obj: "outer_catch (Error_obj m) = Caught (JStr m)"
  by (simp add: outer_catch_def Error_obj_def own_prop_def)

lemma service0_simps:
  "options_maxTasks service0 = 2" "tasks service0 = []"
  "stats service0 = \<lparr> scheduled = 0, running = 0, completed = 0, failed = 0, cancelled = 0 \<rparr>"
  "next_handle service0 = 0" "emitted service0 = []" "immediates service0 = []"
  "listeners service0 = (\<lambda>ev. None)" "calls service0 = []"
  by (simp_all add: service0_def TaskSchedulerService_def)

lemma task_options_empty:
  "task_options [] = [(''timezone'', JStr ''UTC''), (''runOnStart'', JBool False)]"
  by (simp add: task_options_def own_prop_def js_or_def)

lemma node_cron_simps:
  "validate node_cron e = (e = ''* * * * *'')" "schedule_raises node_cron e tz = None"
  "nextDate node_cron e tz now = None"
  by (simp_all add: node_cron_def)

lemma calculateNextRun_node_cron: "calculateNextRun node_cron e tz now = now"
  by (simp add: calculateNextRun_def node_cron_simps)

lemma service1_tasks:
  "tasks service1 =
     [(''t1'', \<lparr> task_id = ''t1'', schedule = ''* * * * *'', task = JFun 0,
                options = [(''timezone'', JStr ''UTC''), (''runOnStart'', JBool False)],
                status = Scheduled, created = 1000, lastRun = None, nextRun = Some 1000,
                task_stats = \<lparr> runs = 0, errors = 0 \<rparr>,
                lastResult = None, lastError = None, cronTask = 0 \<rparr>)]"
  by (simp add: service1_def scheduleTask_def emit_def service0_simps node_cron_simps
      task_options_empty own_prop_def calculateNextRun_node_cron Let_def)

lemma service1_simps:
  "stats service1 = \<lparr> scheduled = 1, running = 0, completed = 0, failed = 0, cancelled = 0 \<rparr>"
  "options_maxTasks service1 = 2" "listeners service1 = (\<lambda>ev. None)" "calls service1 = []"
  by (simp_all add: service1_def scheduleTask_def emit_def service0_simps node_cron_simps
      task_options_empty own_prop_def calculateNextRun_node_cron Let_def)

lemma service_full_simps:
  "tasks service_full = tasks service1" "options_maxTasks service_full = 1"
  by (simp_all add: service_full_def service1_def scheduleTask_def emit_def TaskSchedulerService_def
      service0_def node_cron_simps task_options_empty own_prop_def calculateNextRun_node_cron Let_def)

lemma service_cancelled_tasks:
  "tasks service_cancelled =
     [(''t1'', \<lparr> task_id = ''t1'', schedule = ''* * * * *'', task = JFun 0,
                options = [(''timezone'', JStr ''UTC''), (''runOnStart'', JBool False)],
                status = Cancelled, created = 1000, lastRun = None, nextRun = Some 1000,
                task_stats = \<lparr> runs = 0, errors = 0 \<rparr>,
                lastResult = None, lastError = None, cronTask = 0 \<rparr>)]"
  by (simp add: service_cancelled_def cancelTask_def emit_def service1_tasks service1_simps Let_def)

lemma service_cancelled_simps:
  "\<not> triggers service_cancelled 0" "listeners service_cancelled = (\<lambda>ev. None)"
  "calls service_cancelled = []"
  by (simp_all add: service_cancelled_def cancelTask_def emit_def service1_tasks service1_simps Let_def)

lemma service_unrunnable_cancelled_tasks:
  "tasks service_unrunnable_cancelled =
     [(''t2'', \<lparr> task_id = ''t2'', schedule = ''* * * * *'', task = JUndefined,
                options = [(''timezone'', JStr ''UTC''), (''runOnStart'', JBool False)],
                status = Cancelled, created = 1000, lastRun = None, nextRun = Some 1000,
                task_stats = \<lparr> runs = 0, errors = 0 \<rparr>,
                lastResult = None, lastError = None, cronTask = 0 \<rparr>)]"
  by (simp add: service_unrunnable_cancelled_def cancelTask_def scheduleTask_def emit_def
      service0_simps node_cron_simps task_options_empty own_prop_def calculateNextRun_node_cron
      Let_def)

lemma service_unrunnable_cancelled_simps:
  "listeners service_unrunnable_cancelled = (\<lambda>ev. None)"
  "calls service_unrunnable_cancelled = []"
  by (simp_all add: service_unrunnable_cancelled_def cancelTask_def scheduleTask_def emit_def
      service0_simps node_cron_simps task_options_empty own_prop_def calculateNextRun_node_cron
      Let_def)

lemma failing_observer_on:
  "listeners (on s name failing_observer) ev =
     (case listeners s ev of
        Some e \<Rightarrow> Some e
      | None \<Rightarrow> if event_name ev = name then Some (Error_obj ''observer failed'') else None)"
  by (simp add: on_def failing_observer_def split: option.splits)

lemma on_simps:
  "tasks (on s name listener) = tasks s" "stats (on s name listener) = stats s"
  "calls (on s name listener) = calls s" "triggers (on s name listener) = triggers s"
  "options_maxTasks (on s name listener) = options_maxTasks s"
  "emitted (on s name listener) = emitted s"
  by (simp_all add: on_def)

lemmas op_defs = scheduleTask_def runTask_def runTask_begin_def runTask_settle_def
  runTask_failed_def invoke_def cancelTask_def deleteTask_def emit_def on_def Let_def

subsection \<open>The registry as a map\<close>

text \<open>
  In every state that operations reach from a new service the ids of the registry are
  distinct, so the length of \<open>tasks\<close> is the \<^verbatim>\<open>size\<close> of the \<^verbatim>\<open>Map\<close>.
\<close>

lemma distinct_apply_op:
  assumes "distinct (map fst (tasks s))"
  shows "distinct (map fst (tasks (apply_op lib s x)))"
proof (cases x)
  case (ScheduleTask taskId expr fn opts t_created t_next)
  then show ?thesis using assms
    by (auto simp: op_defs distinct_update split: option.splits sum.splits)
next
  case (RunTask taskId oc t_run t_next t_retry)
  then show ?thesis using assms
    by (auto simp: op_defs distinct_update split: option.splits sum.splits outcome.splits)
next
  case (CancelTask taskId)
  then show ?thesis using assms
    by (auto simp: op_defs distinct_update split: option.splits)
next
  case (DeleteTask taskId)
  then show ?thesis using assms
    by (auto simp: op_defs distinct_delete split: option.splits)
next
  case (On name listener)
  then show ?thesis using assms by (simp add: on_def)
qed

lemma distinct_run_ops:
  "distinct (map fst (tasks (run_ops lib (TaskSchedulerService m) xs)))"
proof (induction xs rule: rev_induct)
  case Nil
  show ?case by (simp add: run_ops_def TaskSchedulerService_def)
next
  case (snoc x xs)
  then show ?case by (simp add: run_ops_def distinct_apply_op)
qed

subsection \<open>A run whose handler resolves\<close>

text \<open>
  Claim C1, as stated: for every registered task whose handler resolves, \<open>runTask\<close>
  returns the success result, leaves the task \<open>Completed\<close> with \<open>errors\<close> unchanged and
  the \<open>running\<close> counter at its value before the call. It does not when a listener of
  \<^verbatim>\<open>task:completed\<close> raises: the event is emitted inside the inner \<^verbatim>\<open>try\<close>, so the
  \<^verbatim>\<open>catch\<close> branch runs after the success branch. The call returns the failure of the
  handler with the listener's message, the task is \<open>Failed\<close> with one run and one error,
  \<open>running\<close> is one below its value before the call and \<open>failed\<close> is one higher.
\<close>

theorem runTask_success_counterexample:
  "fst (runTask node_cron service1_completed_observed ''t1'' (Resolved (JNum 7)) 2000 2001 2002)
     = Inl (HandlerExecutionError ''t1'' (JStr ''observer failed'')) \<and>
   map (\<lambda>(k, t). (k, status t, runs (task_stats t), errors (task_stats t)))
     (tasks (snd (runTask node_cron service1_completed_observed ''t1'' (Resolved (JNum 7)) 2000 2001 2002)))
     = [(''t1'', Failed, 1, 1)] \<and>
   running (stats service1_completed_observed) = 0 \<and>
   running (stats (snd (runTask node_cron service1_completed_observed ''t1'' (Resolved (JNum 7))
      2000 2001 2002))) = - 1 \<and>
   failed (stats (snd (runTask node_cron service1_completed_observed ''t1'' (Resolved (JNum 7))
      2000 2001 2002))) = 1"
  by (simp add: service1_completed_observed_def runTask_def runTask_begin_def runTask_settle_def
      runTask_failed_def invoke_def emit_def failing_observer_on on_simps service1_tasks
      service1_simps Error_obj_def own_prop_def calculateNextRun_node_cron Let_def)

text \<open>
  Claim C1, amended. For a registered task whose handler is called and resolves with \<open>r\<close>,
  and when no listener of \<^verbatim>\<open>task:running\<close> or \<^verbatim>\<open>task:completed\<close> raises, \<open>runTask\<close>
  returns the success result with the task id and \<open>r\<close>; afterwards the task is
  \<open>Completed\<close>, its \<open>runs\<close> counter is one higher, its \<open>errors\<close> counter is the same,
  \<open>lastResult\<close> is \<open>r\<close>, \<open>nextRun\<close> is calculated anew, the service's \<open>running\<close> counter
  is back at its value before the call and its \<open>completed\<close> counter is one higher. The
  handler was called once.
\<close>

theorem runTask_success:
  assumes "map_of (tasks s) taskId = Some t"
      and "is_function (task t)"
      and "listeners s (TaskRunning taskId) = None"
      and "listeners s (TaskCompleted taskId r) = None"
  shows "case runTask lib s taskId (Resolved r) t_run t_next t_retry of (res, s') \<Rightarrow>
           res = Inr (taskId, r) \<and>
           (\<exists>t'. map_of (tasks s') taskId = Some t' \<and>
                 status t' = Completed \<and>
                 runs (task_stats t') = runs (task_stats t) + 1 \<and>
                 errors (task_stats t') = errors (task_stats t) \<and>
                 lastResult t' = Some r \<and>
                 nextRun t' = Some (calculateNextRun lib (schedule t)
                                      (own_prop (options t) ''timezone'') t_next)) \<and>
           running (stats s') = running (stats s) \<and>
           completed (stats s') = completed (stats s) + 1 \<and>
           calls s' = calls s @ [task t]"
  using assms
  by (simp add: runTask_def runTask_begin_def runTask_settle_def invoke_def emit_def Let_def
      update_conv')

theorem runTask_success_witness:
  "fst (runTask node_cron service1 ''t1'' (Resolved (JNum 7)) 2000 2001 2002) = Inr (''t1'', JNum 7) \<and>
   map_option (\<lambda>t. (status t, runs (task_stats t), errors (task_stats t), lastResult t, nextRun t))
     (map_of (tasks (snd (runTask node_cron service1 ''t1'' (Resolved (JNum 7)) 2000 2001 2002))) ''t1'')
     = Some (Completed, 1, 0, Some (JNum 7), Some 2001) \<and>
   running (stats (snd (runTask node_cron service1 ''t1'' (Resolved (JNum 7)) 2000 2001 2002))) = 0 \<and>
   completed (stats (snd (runTask node_cron service1 ''t1'' (Resolved (JNum 7)) 2000 2001 2002))) = 1 \<and>
   calls (snd (runTask node_cron service1 ''t1'' (Resolved (JNum 7)) 2000 2001 2002)) = [JFun 0]"
proof -
  let ?t = "snd (hd (tasks service1))"
  have h: "map_of (tasks service1) ''t1'' = Some ?t" "is_function (task ?t)"
    "listeners service1 (TaskRunning ''t1'') = None"
    "listeners service1 (TaskCompleted ''t1'' (JNum 7)) = None"
    by (simp_all add: service1_tasks service1_simps)
  from runTask_success [OF h, where lib = node_cron and t_run = 2000 and t_next = 2001
      and t_retry = 2002]
  show ?thesis
    by (auto simp: service1_tasks service1_simps calculateNextRun_node_cron split: prod.splits)
qed

subsection \<open>A run whose handler raises\<close>

text \<open>
  When the value the handler raised has a \<^verbatim>\<open>message\<close> property to read (any value but
  \<^verbatim>\<open>null\<close> and \<^verbatim>\<open>undefined\<close>) and no listener raises, the run is recorded as the failure
  branch means it: the task is \<open>Failed\<close>, \<open>errors\<close> is one higher, \<open>lastError\<close> holds the
  message, \<open>nextRun\<close> is calculated anew, \<open>failed\<close> is one higher, \<open>running\<close> is back at its
  value before the call, and every other task's record is as before.
\<close>

lemma runTask_failure_with_message:
  assumes "map_of (tasks s) taskId = Some t"
      and "is_function (task t)"
      and "get_prop err ''message'' = Inr msg"
      and "listeners s (TaskRunning taskId) = None"
      and "listeners s (TaskFailed taskId msg) = None"
  shows "case runTask lib s taskId (Rejected err) t_run t_next t_retry of (res, s') \<Rightarrow>
           res = Inl (HandlerExecutionError taskId msg) \<and>
           (\<exists>t'. map_of (tasks s') taskId = Some t' \<and>
                 status t' = Failed \<and>
                 errors (task_stats t') = errors (task_stats t) + 1 \<and>
                 runs (task_stats t') = runs (task_stats t) \<and>
                 lastError t' = Some msg \<and>
                 nextRun t' = Some (calculateNextRun lib (schedule t)
                                      (own_prop (options t) ''timezone'') t_next)) \<and>
           running (stats s') = running (stats s) \<and>
           failed (stats s') = failed (stats s) + 1 \<and>
           (\<forall>k. k \<noteq> taskId \<longrightarrow> map_of (tasks s') k = map_of (tasks s) k)"
  using assms
  by (simp add: runTask_def runTask_begin_def runTask_settle_def runTask_failed_def invoke_def
      emit_def Let_def update_conv')

text \<open>
  Claim C2. A run whose handler raises is to leave the task \<open>Failed\<close> with \<open>errors\<close> one
  higher and \<open>lastError\<close> recorded, the service's \<open>failed\<close> counter one higher and its
  \<open>running\<close> counter back at the value before the call. The code does not do so when the
  handler raises \<^verbatim>\<open>null\<close> (or \<^verbatim>\<open>undefined\<close>, as a promise rejected with no reason does):
  for the task \<^verbatim>\<open>t1\<close> of \<open>service1\<close>, which has no listener, the read of \<^verbatim>\<open>error.message\<close>
  raises inside the \<^verbatim>\<open>catch\<close> branch, after \<open>errors\<close> and \<open>status\<close> are written; the call
  returns the message of that \<^verbatim>\<open>TypeError\<close>, \<open>lastError\<close> stays unset, \<open>running\<close> stays at 1
  (it was 0 before the call) and \<open>failed\<close> stays at 0.
\<close>

theorem runTask_rejected_null:
  "fst (runTask node_cron service1 ''t1'' (Rejected JNull) 2000 2001 2002)
     = Inl (Caught (JStr (cannot_read JNull ''message''))) \<and>
   map (\<lambda>(k, t). (k, status t, errors (task_stats t), lastError t))
     (tasks (snd (runTask node_cron service1 ''t1'' (Rejected JNull) 2000 2001 2002)))
     = [(''t1'', Failed, 1, None)] \<and>
   running (stats service1) = 0 \<and>
   running (stats (snd (runTask node_cron service1 ''t1'' (Rejected JNull) 2000 2001 2002))) = 1 \<and>
   failed (stats service1) = 0 \<and>
   failed (stats (snd (runTask node_cron service1 ''t1'' (Rejected JNull) 2000 2001 2002))) = 0"
  by (simp add: runTask_def runTask_begin_def runTask_settle_def runTask_failed_def invoke_def
      emit_def service1_tasks service1_simps outer_catch_Error_obj Let_def)

subsection \<open>Registration: the three checks\<close>

text \<open>
  Claim C3. When the task id is already in the registry, \<open>scheduleTask\<close> with that id
  returns the error \<open>DuplicateTaskId\<close> and the service is as it was: the task registered
  first keeps its schedule, handler, options and counters.
\<close>

theorem scheduleTask_duplicate:
  assumes "map_of (tasks s) taskId = Some t"
  shows "scheduleTask lib s taskId expr fn opts t_created t_next = (Inl DuplicateTaskId, s)"
  using assms by (simp add: scheduleTask_def)

theorem scheduleTask_duplicate_witness:
  "fst (scheduleTask node_cron service1 ''t1'' ''* * * * *'' (JFun 1)
          [(''timezone'', JStr ''Europe/Paris'')] 5000 5000)
     = Inl DuplicateTaskId \<and>
   tasks (snd (scheduleTask node_cron service1 ''t1'' ''* * * * *'' (JFun 1)
                 [(''timezone'', JStr ''Europe/Paris'')] 5000 5000))
     = tasks service1 \<and>
   map (\<lambda>(k, t). (k, schedule t, task t, options t, task_stats t)) (tasks service1)
     = [(''t1'', ''* * * * *'', JFun 0, [(''timezone'', JStr ''UTC''), (''runOnStart'', JBool False)],
         \<lparr> runs = 0, errors = 0 \<rparr>)]"
proof -
  have h: "map_of (tasks service1) ''t1'' = Some (snd (hd (tasks service1)))"
    by (simp add: service1_tasks)
  show ?thesis
    using scheduleTask_duplicate [OF h, where lib = node_cron]
    by (simp add: service1_tasks)
qed

text \<open>
  Claim C5, as stated: every expression that fails validation makes \<open>scheduleTask\<close> return
  the error \<open>InvalidScheduleExpression\<close>. It does not when the id is taken: the check of
  the id comes first.
\<close>

theorem scheduleTask_invalid_counterexample:
  "\<not> validate node_cron ''every minute'' \<and>
   fst (scheduleTask node_cron service1 ''t1'' ''every minute'' (JFun 1) [] 5000 5000)
     = Inl DuplicateTaskId"
  by (simp add: scheduleTask_def service1_tasks node_cron_simps)

text \<open>
  Claim C5, amended. For every expression that fails validation \<open>scheduleTask\<close> returns an
  error and leaves the service as it was (no task object, no trigger, no counter changed).
  The error is \<open>InvalidScheduleExpression\<close> when the id is new and the registry has room;
  a taken id is reported as \<open>DuplicateTaskId\<close> and a full registry as \<open>TaskLimitExceeded\<close>,
  as those checks come first.
\<close>

theorem scheduleTask_invalid:
  assumes "\<not> validate lib expr"
  shows "scheduleTask lib s taskId expr fn opts t_created t_next =
           (Inl (if map_of (tasks s) taskId \<noteq> None then DuplicateTaskId
                 else if options_maxTasks s \<le> length (tasks s) then TaskLimitExceeded
                 else InvalidScheduleExpression), s)"
  using assms by (simp add: scheduleTask_def)

theorem scheduleTask_invalid_witness:
  "scheduleTask node_cron service1 ''t2'' ''every minute'' (JFun 1) [] 5000 5000
     = (Inl InvalidScheduleExpression, service1)"
proof -
  have h: "\<not> validate node_cron ''every minute''"
    by (simp add: node_cron_simps)
  show ?thesis
    using scheduleTask_invalid [OF h, where s = service1 and taskId = "''t2''"]
    by (simp add: service1_tasks service1_simps)
qed

subsection \<open>The capacity of the registry\<close>

lemma options_maxTasks_apply_op: "options_maxTasks (apply_op lib s x) = options_maxTasks s"
  by (cases x) (auto simp: op_defs split: option.splits sum.splits outcome.splits)

lemma capacity_apply_op:
  assumes "length (tasks s) \<le> options_maxTasks s"
  shows "length (tasks (apply_op lib s x)) \<le> options_maxTasks s"
proof (cases x)
  case (ScheduleTask taskId expr fn opts t_created t_next)
  then show ?thesis using assms
    by (auto simp: op_defs length_update split: option.splits sum.splits)
next
  case (RunTask taskId oc t_run t_next t_retry)
  then show ?thesis using assms
    by (auto simp: op_defs length_update update_conv' split: option.splits sum.splits outcome.splits)
next
  case (CancelTask taskId)
  then show ?thesis using assms
    by (auto simp: op_defs length_update split: option.splits)
next
  case (DeleteTask taskId)
  then show ?thesis using assms length_delete_le [of taskId "tasks s"]
    by (auto simp: op_defs split: option.splits)
next
  case (On name listener)
  then show ?thesis using assms by (simp add: on_def)
qed

lemma capacity_run_ops:
  "length (tasks s) \<le> options_maxTasks s \<Longrightarrow>
   length (tasks (run_ops lib s xs)) \<le> options_maxTasks (run_ops lib s xs)"
proof (induction xs arbitrary: s)
  case Nil
  then show ?case by (simp add: run_ops_def)
next
  case (Cons x xs)
  have "length (tasks (apply_op lib s x)) \<le> options_maxTasks (apply_op lib s x)"
    using capacity_apply_op [OF Cons.prems] by (simp add: options_maxTasks_apply_op)
  from Cons.IH [OF this] show ?case by (simp add: run_ops_def)
qed

text \<open>
  Claim C4, as stated: whenever the registry holds \<open>maxTasks\<close> tasks, \<open>scheduleTask\<close> fails
  with \<open>TaskLimitExceeded\<close>. It does not when the id is one of those tasks': the check of
  the id comes first and the error is \<open>DuplicateTaskId\<close>.
\<close>

theorem scheduleTask_at_capacity_counterexample:
  "length (tasks service_full) = options_maxTasks service_full \<and>
   fst (scheduleTask node_cron service_full ''t1'' ''* * * * *'' (JFun 1) [] 5000 5000)
     = Inl DuplicateTaskId \<and>
   fst (scheduleTask node_cron service_full ''t1'' ''* * * * *'' (JFun 1) [] 5000 5000)
     \<noteq> Inl TaskLimitExceeded"
  by (simp add: scheduleTask_def service_full_simps service1_tasks)

text \<open>
  Claim C4, amended. Whenever the registry holds \<open>maxTasks\<close> tasks, \<open>scheduleTask\<close> fails
  and leaves the service, and so \<open>taskCount\<close>, as it was; the error is \<open>TaskLimitExceeded\<close>
  for an id that is not registered and \<open>DuplicateTaskId\<close> for one that is. After any
  sequence of \<open>scheduleTask\<close>, \<open>runTask\<close>, \<open>cancelTask\<close> and \<open>deleteTask\<close> on a new service,
  whatever listeners are added on the way, \<open>taskCount\<close> is at most \<open>maxTasks\<close>.
\<close>

theorem registry_capacity:
  "(length (tasks s) = options_maxTasks s \<longrightarrow>
      scheduleTask lib s taskId expr fn opts t_created t_next =
        (Inl (if map_of (tasks s) taskId \<noteq> None then DuplicateTaskId else TaskLimitExceeded), s)) \<and>
   taskCount (getStats (run_ops lib (TaskSchedulerService m) xs))
     \<le> maxTasks (getStats (run_ops lib (TaskSchedulerService m) xs))"
proof
  show "length (tasks s) = options_maxTasks s \<longrightarrow>
      scheduleTask lib s taskId expr fn opts t_created t_next =
        (Inl (if map_of (tasks s) taskId \<noteq> None then DuplicateTaskId else TaskLimitExceeded), s)"
    by (simp add: scheduleTask_def)
  have "length (tasks (TaskSchedulerService m)) \<le> options_maxTasks (TaskSchedulerService m)"
    by (simp add: TaskSchedulerService_def)
  from capacity_run_ops [OF this]
  show "taskCount (getStats (run_ops lib (TaskSchedulerService m) xs))
     \<le> maxTasks (getStats (run_ops lib (TaskSchedulerService m) xs))"
    by (simp add: getStats_def)
qed

theorem registry_capacity_witness:
  "scheduleTask node_cron service_full ''t2'' ''* * * * *'' (JFun 1) [] 5000 5000
     = (Inl TaskLimitExceeded, service_full) \<and>
   taskCount (getStats (run_ops node_cron (TaskSchedulerService (Some 1))
      [On ''task:scheduled'' failing_observer,
       ScheduleTask ''t1'' ''* * * * *'' (JFun 0) [] 1000 1000,
       ScheduleTask ''t2'' ''* * * * *'' (JFun 1) [] 5000 5000,
       RunTask ''t1'' (Resolved JNull) 6000 6000 6000,
       DeleteTask ''t1'',
       ScheduleTask ''t3'' ''* * * * *'' (JFun 1) [] 7000 7000,
       CancelTask ''t3'']))
     \<le> 1"
proof -
  have h: "length (tasks service_full) = options_maxTasks service_full"
    by (simp add: service_full_simps service1_tasks)
  have m: "maxTasks (getStats (run_ops node_cron (TaskSchedulerService (Some 1)) xs)) = 1" for xs
    by (induction xs rule: rev_induct)
       (simp_all add: getStats_def run_ops_def options_maxTasks_apply_op TaskSchedulerService_def)
  show ?thesis
    using registry_capacity [where s = service_full and lib = node_cron and taskId = "''t2''"
        and m = "Some 1"] h m
    by (simp add: service_full_simps service1_tasks)
qed

subsection \<open>Counters and deletion\<close>

lemma scheduled_apply_op:
  "scheduled (stats (apply_op lib s x)) =
     scheduled (stats s) + (if is_registration lib s x then 1 else 0)"
proof (cases x)
  case (ScheduleTask taskId expr fn opts t_created t_next)
  then show ?thesis
    by (auto simp: scheduleTask_def emit_def Let_def update_conv'
        split: option.splits sum.splits prod.splits)
next
  case (RunTask taskId oc t_run t_next t_retry)
  then show ?thesis
    by (auto simp: op_defs split: option.splits sum.splits outcome.splits)
next
  case (CancelTask taskId)
  then show ?thesis by (auto simp: op_defs split: option.splits)
next
  case (DeleteTask taskId)
  then show ?thesis by (auto simp: op_defs split: option.splits)
next
  case (On name listener)
  then show ?thesis by (simp add: on_def)
qed

lemma scheduled_run_ops:
  "scheduled (stats (run_ops lib s xs)) = scheduled (stats s) + int (registrations lib s xs)"
proof (induction xs arbitrary: s)
  case Nil
  show ?case by (simp add: run_ops_def)
next
  case (Cons x xs)
  have "scheduled (stats (run_ops lib s (x # xs)))
          = scheduled (stats (run_ops lib (apply_op lib s x) xs))"
    by (simp add: run_ops_def)
  also have "\<dots> = scheduled (stats (apply_op lib s x)) + int (registrations lib (apply_op lib s x) xs)"
    by (rule Cons.IH)
  finally show ?case by (simp add: scheduled_apply_op)
qed

lemma deleteTask_stats: "stats (snd (deleteTask s taskId)) = stats s"
  by (simp add: deleteTask_def emit_def Let_def split: option.splits)

text \<open>
  Claim C10. \<open>deleteTask\<close> changes none of the five counters that \<open>getStats\<close> returns.
  No sequence of operations lowers the \<open>scheduled\<close> counter: it grows by the number of
  registrations in the sequence. It can exceed \<open>taskCount\<close>: after \<^verbatim>\<open>t1\<close> is registered
  and deleted, \<open>scheduled\<close> is 1 and \<open>taskCount\<close> is 0.
\<close>

theorem deleteTask_keeps_counters:
  "scheduled (getStats (snd (deleteTask s taskId))) = scheduled (getStats s) \<and>
   running (getStats (snd (deleteTask s taskId))) = running (getStats s) \<and>
   completed (getStats (snd (deleteTask s taskId))) = completed (getStats s) \<and>
   failed (getStats (snd (deleteTask s taskId))) = failed (getStats s) \<and>
   cancelled (getStats (snd (deleteTask s taskId))) = cancelled (getStats s) \<and>
   scheduled (getStats s) \<le> scheduled (getStats (run_ops lib s xs)) \<and>
   scheduled (getStats (run_ops lib s xs)) = scheduled (getStats s) + int (registrations lib s xs) \<and>
   int (taskCount (getStats (snd (deleteTask service1 ''t1''))))
     < scheduled (getStats (snd (deleteTask service1 ''t1'')))"
proof -
  have "int (taskCount (getStats (snd (deleteTask service1 ''t1''))))
          < scheduled (getStats (snd (deleteTask service1 ''t1'')))"
    by (simp add: getStats_def deleteTask_def emit_def service1_tasks service1_simps Let_def)
  then show ?thesis
    by (simp add: getStats_def deleteTask_stats scheduled_run_ops)
qed

theorem deleteTask_keeps_counters_witness:
  "scheduled (getStats (run_ops node_cron service0
      [ScheduleTask ''t1'' ''* * * * *'' (JFun 0) [] 1000 1000,
       DeleteTask ''t1'',
       ScheduleTask ''t1'' ''* * * * *'' (JFun 0) [] 2000 2000,
       DeleteTask ''t1''])) = 2 \<and>
   taskCount (getStats (run_ops node_cron service0
      [ScheduleTask ''t1'' ''* * * * *'' (JFun 0) [] 1000 1000,
       DeleteTask ''t1'',
       ScheduleTask ''t1'' ''* * * * *'' (JFun 0) [] 2000 2000,
       DeleteTask ''t1''])) = 0"
proof -
  let ?xs = "[ScheduleTask ''t1'' ''* * * * *'' (JFun 0) [] 1000 1000,
       DeleteTask ''t1'',
       ScheduleTask ''t1'' ''* * * * *'' (JFun 0) [] 2000 2000,
       DeleteTask ''t1'']"
  have t: "tasks (run_ops node_cron service0 ?xs) = []"
    by (simp add: run_ops_def scheduleTask_def deleteTask_def emit_def service0_simps node_cron_simps
        task_options_empty own_prop_def Let_def)
  have r: "registrations node_cron service0 ?xs = 2"
    by (simp add: scheduleTask_def deleteTask_def emit_def service0_simps node_cron_simps
        task_options_empty own_prop_def Let_def)
  show ?thesis
    using deleteTask_keeps_counters [where lib = node_cron and s = service0 and xs = ?xs] t r
    by (simp add: getStats_def service0_simps)
qed

subsection \<open>Deletion\<close>

lemma absent_apply_op:
  assumes "map_of (tasks s) k = None" and "\<not> registers lib s k x"
  shows "map_of (tasks (apply_op lib s x)) k = None"
proof (cases x)
  case (ScheduleTask taskId expr fn opts t_created t_next)
  show ?thesis
  proof (cases "taskId = k")
    case True
    with ScheduleTask assms show ?thesis by simp
  next
    case False
    with ScheduleTask assms(1) show ?thesis
      by (auto simp: scheduleTask_def emit_def Let_def update_conv'
          split: option.splits sum.splits prod.splits)
  qed
next
  case (RunTask taskId oc t_run t_next t_retry)
  then show ?thesis using assms(1)
    by (auto simp: op_defs update_conv' split: option.splits sum.splits outcome.splits)
next
  case (CancelTask taskId)
  then show ?thesis using assms(1)
    by (auto simp: op_defs update_conv' split: option.splits)
next
  case (DeleteTask taskId)
  then show ?thesis using assms(1)
    by (auto simp: op_defs delete_conv' split: option.splits)
next
  case (On name listener)
  then show ?thesis using assms(1) by (simp add: on_def)
qed

lemma absent_run_ops:
  "map_of (tasks s) k = None \<Longrightarrow> \<not> registered_again lib s k xs \<Longrightarrow>
   map_of (tasks (run_ops lib s xs)) k = None"
proof (induction xs arbitrary: s)
  case Nil
  then show ?case by (simp add: run_ops_def)
next
  case (Cons x xs)
  from Cons.prems have "map_of (tasks (apply_op lib s x)) k = None"
    by (simp add: absent_apply_op)
  moreover from Cons.prems(2) have "\<not> registered_again lib (apply_op lib s x) k xs"
    by simp
  ultimately show ?case using Cons.IH by (simp add: run_ops_def)
qed

lemma absent_not_found:
  assumes "map_of (tasks s) k = None"
  shows "getTaskInfo s k = Inl TaskNotFound"
    and "fst (runTask lib s k oc t_run t_next t_retry) = Inl TaskNotFound"
    and "fst (cancelTask s k) = Inl TaskNotFound"
    and "fst (deleteTask s k) = Inl TaskNotFound"
  using assms
  by (simp_all add: getTaskInfo_def runTask_def runTask_begin_def cancelTask_def deleteTask_def)

text \<open>
  Claim C7, as stated: for every registered id \<open>deleteTask\<close> succeeds. It does not when a
  listener of \<^verbatim>\<open>task:deleted\<close> raises: the task is out of the registry by then, and the
  call returns the listener's message through the \<^verbatim>\<open>catch\<close>.
\<close>

theorem deleteTask_removes_counterexample:
  "map_option task_id (map_of (tasks service1_deleted_observed) ''t1'') = Some ''t1'' \<and>
   fst (deleteTask service1_deleted_observed ''t1'') = Inl (Caught (JStr ''observer failed'')) \<and>
   tasks (snd (deleteTask service1_deleted_observed ''t1'')) = []"
  by (simp add: service1_deleted_observed_def deleteTask_def emit_def failing_observer_on on_simps
      service1_tasks service1_simps outer_catch_Error_obj Let_def)

text \<open>
  Claim C7, amended. For a registered id, \<open>deleteTask\<close> stops the task's trigger and takes
  the task out of the registry, and it returns success when no listener of
  \<^verbatim>\<open>task:deleted\<close> raises. From then on, through any operations among which no
  \<open>scheduleTask\<close> enters the id in the registry again (attempts that fail are allowed),
  \<open>getTaskInfo\<close>, \<open>runTask\<close>, \<open>cancelTask\<close> and \<open>deleteTask\<close> on that id return
  \<open>TaskNotFound\<close>.
\<close>

theorem deleteTask_removes:
  assumes "map_of (tasks s) taskId = Some t"
      and "\<not> registered_again lib (snd (deleteTask s taskId)) taskId xs"
  shows "(listeners s (TaskDeleted taskId) = None \<longrightarrow> fst (deleteTask s taskId) = Inr taskId) \<and>
         \<not> triggers (snd (deleteTask s taskId)) (cronTask t) \<and>
         taskId \<notin> fst ` set (tasks (snd (deleteTask s taskId))) \<and>
         getTaskInfo (run_ops lib (snd (deleteTask s taskId)) xs) taskId = Inl TaskNotFound \<and>
         fst (runTask lib (run_ops lib (snd (deleteTask s taskId)) xs) taskId oc t_run t_next t_retry)
           = Inl TaskNotFound \<and>
         fst (cancelTask (run_ops lib (snd (deleteTask s taskId)) xs) taskId) = Inl TaskNotFound \<and>
         fst (deleteTask (run_ops lib (snd (deleteTask s taskId)) xs) taskId) = Inl TaskNotFound"
proof -
  let ?s' = "snd (deleteTask s taskId)"
  have d: "?s' = s \<lparr> triggers := (triggers s) (cronTask t := False),
                      tasks := AList.delete taskId (tasks s),
                      emitted := emitted s @ [TaskDeleted taskId] \<rparr>"
    using assms(1) by (simp add: deleteTask_def emit_def Let_def split: option.splits)
  have r: "listeners s (TaskDeleted taskId) = None \<longrightarrow> fst (deleteTask s taskId) = Inr taskId"
    using assms(1) by (simp add: deleteTask_def emit_def Let_def)
  have gone: "map_of (tasks ?s') taskId = None"
    by (simp add: d delete_conv')
  have later: "map_of (tasks (run_ops lib ?s' xs)) taskId = None"
    using absent_run_ops [OF gone assms(2)] .
  have "\<not> triggers ?s' (cronTask t)" "taskId \<notin> fst ` set (tasks ?s')"
    using delete_notin_dom [of taskId "tasks s"] by (simp_all add: d)
  with r absent_not_found [OF later] show ?thesis
    by simp
qed

theorem deleteTask_removes_witness:
  "fst (deleteTask service1 ''t1'') = Inr ''t1'' \<and>
   triggers (snd (deleteTask service1 ''t1'')) 0 = False \<and>
   tasks (snd (deleteTask service1 ''t1'')) = [] \<and>
   getTaskInfo (run_ops node_cron (snd (deleteTask service1 ''t1''))
      [ScheduleTask ''t2'' ''* * * * *'' (JFun 1) [] 3000 3000,
       ScheduleTask ''t1'' ''every minute'' (JFun 1) [] 3500 3500,
       RunTask ''t1'' (Resolved JNull) 4000 4000 4000])
      ''t1'' = Inl TaskNotFound \<and>
   fst (deleteTask (snd (deleteTask service1 ''t1'')) ''t1'') = Inl TaskNotFound"
proof -
  let ?s' = "snd (deleteTask service1 ''t1'')"
  let ?xs = "[ScheduleTask ''t2'' ''* * * * *'' (JFun 1) [] 3000 3000,
       ScheduleTask ''t1'' ''every minute'' (JFun 1) [] 3500 3500,
       RunTask ''t1'' (Resolved JNull) 4000 4000 4000]"
  have h: "map_of (tasks service1) ''t1'' = Some (snd (hd (tasks service1)))"
    by (simp add: service1_tasks)
  have t: "tasks ?s' = []"
    by (simp add: deleteTask_def emit_def service1_tasks service1_simps Let_def)
  have a: "\<not> registered_again node_cron ?s' ''t1'' ?xs"
    by (simp add: t scheduleTask_def node_cron_simps split: prod.splits)
  have b: "\<not> registered_again node_cron ?s' ''t1'' []"
    by simp
  have l: "listeners service1 (TaskDeleted ''t1'') = None"
    by (simp add: service1_simps)
  show ?thesis
    using deleteTask_removes [OF h a] deleteTask_removes [OF h b] t l
    by (simp add: service1_tasks run_ops_def)
qed

subsection \<open>Running a cancelled task\<close>

text \<open>
  Claim C9, as stated: for every task with status \<open>Cancelled\<close>, \<open>runTask\<close> invokes the
  handler and takes the task through \<open>Running\<close> to \<open>Completed\<close> or \<open>Failed\<close>. It does not
  when a listener of \<^verbatim>\<open>task:running\<close> raises: the call returns the listener's message
  through the outer \<^verbatim>\<open>catch\<close>, the handler is not called and the task stays \<open>Running\<close>.
\<close>

theorem runTask_cancelled_counterexample:
  "map_option status (map_of (tasks service_cancelled_observed) ''t1'') = Some Cancelled \<and>
   fst (runTask node_cron service_cancelled_observed ''t1'' (Resolved (JNum 7)) 2000 2001 2002)
     = Inl (Caught (JStr ''observer failed'')) \<and>
   map_option status
     (map_of (tasks (snd (runTask node_cron service_cancelled_observed ''t1'' (Resolved (JNum 7))
        2000 2001 2002))) ''t1'') = Some Running \<and>
   calls (snd (runTask node_cron service_cancelled_observed ''t1'' (Resolved (JNum 7)) 2000 2001 2002))
     = []"
  by (simp add: service_cancelled_observed_def runTask_def runTask_begin_def emit_def
      failing_observer_on on_simps service_cancelled_tasks service_cancelled_simps
      outer_catch_Error_obj Let_def)

text \<open>
  Claim C9, amended. For a registered task whose status is \<open>Cancelled\<close>, and when no
  listener of \<^verbatim>\<open>task:running\<close> raises, \<open>runTask\<close> finds the task and sets it \<open>Running\<close>;
  it calls the handler, once, when the handler is a function; afterwards the task is
  \<open>Completed\<close> when the handler is a function, its invocation resolved and no listener of
  \<^verbatim>\<open>task:completed\<close> raised, and \<open>Failed\<close> otherwise; the result is the success result in
  the first case. No trigger changes: the one that \<open>cancelTask\<close> stopped stays stopped.
\<close>

theorem runTask_cancelled:
  assumes "map_of (tasks s) taskId = Some t"
      and "status t = Cancelled"
      and "listeners s (TaskRunning taskId) = None"
  shows "(\<exists>t1 s1. runTask_begin s taskId t_run = Inr (t1, s1) \<and>
                  status t1 = Running \<and>
                  map_of (tasks s1) taskId = Some t1) \<and>
         calls (snd (runTask lib s taskId oc t_run t_next t_retry))
           = calls s @ (if is_function (task t) then [task t] else []) \<and>
         map_option status
           (map_of (tasks (snd (runTask lib s taskId oc t_run t_next t_retry))) taskId)
           = Some (case oc of
                     Resolved r \<Rightarrow>
                       if is_function (task t) \<and> listeners s (TaskCompleted taskId r) = None
                       then Completed else Failed
                   | Rejected err \<Rightarrow> Failed) \<and>
         (case oc of
            Resolved r \<Rightarrow>
              is_function (task t) \<and> listeners s (TaskCompleted taskId r) = None \<longrightarrow>
              fst (runTask lib s taskId oc t_run t_next t_retry) = Inr (taskId, r)
          | Rejected err \<Rightarrow>
              (\<exists>e. fst (runTask lib s taskId oc t_run t_next t_retry) = Inl e)) \<and>
         triggers (snd (runTask lib s taskId oc t_run t_next t_retry)) = triggers s"
proof -
  let ?t1 = "t \<lparr> status := Running, lastRun := Some t_run \<rparr>"
  let ?s1 = "s \<lparr> tasks := AList.update taskId ?t1 (tasks s),
                  stats := (stats s) \<lparr> running := running (stats s) + 1 \<rparr>,
                  emitted := emitted s @ [TaskRunning taskId] \<rparr>"
  have b: "runTask_begin s taskId t_run = Inr (?t1, ?s1)"
    using assms by (simp add: runTask_begin_def emit_def Let_def)
  have f: "map_option status (map_of (tasks (snd (runTask_failed lib s2 taskId t2 e tn))) taskId)
             = Some Failed"
       "triggers (snd (runTask_failed lib s2 taskId t2 e tn)) = triggers s2"
       "calls (snd (runTask_failed lib s2 taskId t2 e tn)) = calls s2"
       "\<exists>e'. fst (runTask_failed lib s2 taskId t2 e tn) = Inl e'"
    for s2 t2 e tn
    by (auto simp: runTask_failed_def emit_def Let_def update_conv'
        split: sum.splits option.splits)
  show ?thesis
  proof (cases oc)
    case (Resolved r)
    then show ?thesis
      using f by (simp add: runTask_def b runTask_settle_def invoke_def emit_def Let_def
          update_conv' Error_obj_def split: option.splits)
  next
    case (Rejected err)
    then show ?thesis
      using f by (simp add: runTask_def b runTask_settle_def invoke_def emit_def Let_def
          update_conv')
  qed
qed

theorem runTask_cancelled_witness:
  "map_option status (map_of (tasks service_cancelled) ''t1'') = Some Cancelled \<and>
   map_sum id (status \<circ> fst) (runTask_begin service_cancelled ''t1'' 2000) = Inr Running \<and>
   fst (runTask node_cron service_cancelled ''t1'' (Resolved (JNum 7)) 2000 2001 2002)
     = Inr (''t1'', JNum 7) \<and>
   map_option status
     (map_of (tasks (snd (runTask node_cron service_cancelled ''t1'' (Resolved (JNum 7)) 2000 2001 2002)))
        ''t1'') = Some Completed \<and>
   calls (snd (runTask node_cron service_cancelled ''t1'' (Resolved (JNum 7)) 2000 2001 2002))
     = [JFun 0] \<and>
   triggers (snd (runTask node_cron service_cancelled ''t1'' (Resolved (JNum 7)) 2000 2001 2002)) 0
     = False \<and>
   map_option status
     (map_of (tasks (snd (runTask node_cron service_cancelled ''t1'' (Rejected (JStr ''boom''))
        2000 2001 2002))) ''t1'') = Some Failed \<and>
   calls (snd (runTask node_cron service_cancelled ''t1'' (Rejected (JStr ''boom'')) 2000 2001 2002))
     = [JFun 0] \<and>
   map_option status (map_of (tasks service_unrunnable_cancelled) ''t2'') = Some Cancelled \<and>
   map_option status
     (map_of (tasks (snd (runTask node_cron service_unrunnable_cancelled ''t2'' (Resolved (JNum 7))
        2000 2001 2002))) ''t2'') = Some Failed \<and>
   calls (snd (runTask node_cron service_unrunnable_cancelled ''t2'' (Resolved (JNum 7))
        2000 2001 2002)) = []"
proof -
  let ?t = "snd (hd (tasks service_cancelled))"
  let ?u = "snd (hd (tasks service_unrunnable_cancelled))"
  have h: "map_of (tasks service_cancelled) ''t1'' = Some ?t" "status ?t = Cancelled"
    "listeners service_cancelled (TaskRunning ''t1'') = None"
    by (simp_all add: service_cancelled_tasks service_cancelled_simps)
  have g: "map_of (tasks service_unrunnable_cancelled) ''t2'' = Some ?u" "status ?u = Cancelled"
    "listeners service_unrunnable_cancelled (TaskRunning ''t2'') = None"
    by (simp_all add: service_unrunnable_cancelled_tasks service_unrunnable_cancelled_simps)
  have b: "map_sum id (status \<circ> fst) (runTask_begin service_cancelled ''t1'' 2000) = Inr Running"
    by (simp add: runTask_begin_def emit_def service_cancelled_tasks service_cancelled_simps Let_def)
  from runTask_cancelled [OF h, where lib = node_cron and oc = "Resolved (JNum 7)"
      and t_run = 2000 and t_next = 2001 and t_retry = 2002]
    runTask_cancelled [OF h, where lib = node_cron and oc = "Rejected (JStr ''boom'')"
      and t_run = 2000 and t_next = 2001 and t_retry = 2002]
    runTask_cancelled [OF g, where lib = node_cron and oc = "Resolved (JNum 7)"
      and t_run = 2000 and t_next = 2001 and t_retry = 2002]
    b
  show ?thesis
    by (simp add: service_cancelled_tasks service_cancelled_simps
        service_unrunnable_cancelled_tasks service_unrunnable_cancelled_simps)
qed

subsection \<open>Registration: the handler\<close>

text \<open>
  Claim C8, as stated: registration succeeds for any value that is not a function. It does
  not for \<^verbatim>\<open>undefined\<close> (or \<^verbatim>\<open>null\<close>): reading \<^verbatim>\<open>task.run\<close> raises, the \<^verbatim>\<open>catch\<close> of
  \<open>scheduleTask\<close> returns the message, and nothing is registered.
\<close>

theorem scheduleTask_nullish_counterexample:
  "\<not> is_function JUndefined \<and>
   scheduleTask node_cron service0 ''t1'' ''* * * * *'' JUndefined [] 1000 1000
     = (Inl (Caught (JStr (cannot_read JUndefined ''run''))), service0)"
  by (simp add: scheduleTask_def service0_simps node_cron_simps outer_catch_Error_obj)

text \<open>
  Claim C8, amended. \<open>scheduleTask\<close> does not check that the handler is a function. When
  the id is new, the registry has room, the expression is valid, the library starts the
  trigger and no listener of \<^verbatim>\<open>task:scheduled\<close>, \<^verbatim>\<open>task:running\<close> or \<^verbatim>\<open>task:failed\<close>
  raises, a value that is not a function and is neither \<^verbatim>\<open>null\<close> nor \<^verbatim>\<open>undefined\<close> is
  registered with its \<^verbatim>\<open>run\<close> property (possibly \<^verbatim>\<open>undefined\<close>) as the handler; when that
  property is not a function, \<open>runTask\<close> calls nothing, catches the error of the
  invocation, returns the failure of the handler and leaves the task \<open>Failed\<close> with one
  error. For \<^verbatim>\<open>null\<close> and \<^verbatim>\<open>undefined\<close> registration fails with the message of the raised
  error and the service is as it was.
\<close>

theorem scheduleTask_unchecked_handler:
  assumes "map_of (tasks s) taskId = None"
      and "length (tasks s) < options_maxTasks s"
      and "validate lib expr"
      and "schedule_raises lib expr (own_prop (task_options opts) ''timezone'') = None"
      and "\<not> is_function fn"
      and "listeners s (TaskScheduled taskId expr) = None"
      and "listeners s (TaskRunning taskId) = None"
      and "listeners s (TaskFailed taskId (JStr not_a_function)) = None"
  shows "(fn = JNull \<or> fn = JUndefined \<longrightarrow>
            scheduleTask lib s taskId expr fn opts t_created t_next
              = (Inl (Caught (JStr (cannot_read fn ''run''))), s)) \<and>
         (fn \<noteq> JNull \<and> fn \<noteq> JUndefined \<longrightarrow>
            (\<exists>n. fst (scheduleTask lib s taskId expr fn opts t_created t_next) = Inr (taskId, n)) \<and>
            (\<exists>t. map_of (tasks (snd (scheduleTask lib s taskId expr fn opts t_created t_next))) taskId
                    = Some t \<and>
                 status t = Scheduled \<and>
                 get_prop fn ''run'' = Inr (task t) \<and>
                 (\<not> is_function (task t) \<longrightarrow>
                    fst (runTask lib (snd (scheduleTask lib s taskId expr fn opts t_created t_next))
                           taskId oc t_run t_next' t_retry)
                      = Inl (HandlerExecutionError taskId (JStr not_a_function)) \<and>
                    map_option (\<lambda>t'. (status t', errors (task_stats t')))
                      (map_of (tasks (snd (runTask lib
                          (snd (scheduleTask lib s taskId expr fn opts t_created t_next))
                          taskId oc t_run t_next' t_retry))) taskId)
                      = Some (Failed, 1) \<and>
                    calls (snd (runTask lib
                          (snd (scheduleTask lib s taskId expr fn opts t_created t_next))
                          taskId oc t_run t_next' t_retry)) = calls s)))"
proof (cases "fn = JNull \<or> fn = JUndefined")
  case True
  then show ?thesis using assms
    by (auto simp: scheduleTask_def outer_catch_Error_obj)
next
  case False
  then obtain h where h: "get_prop fn ''run'' = Inr h"
    by (cases fn) auto
  let ?next = "calculateNextRun lib expr (own_prop (task_options opts) ''timezone'') t_next"
  let ?t = "\<lparr> task_id = taskId, schedule = expr, task = h,
              options = task_options opts, status = Scheduled, created = t_created,
              lastRun = None, nextRun = Some ?next,
              task_stats = \<lparr> runs = 0, errors = 0 \<rparr>,
              lastResult = None, lastError = None, cronTask = next_handle s \<rparr>"
  let ?s' = "snd (scheduleTask lib s taskId expr fn opts t_created t_next)"
  have r: "fst (scheduleTask lib s taskId expr fn opts t_created t_next) = Inr (taskId, ?next)"
    using assms h by (simp add: scheduleTask_def emit_def Let_def)
  have t: "tasks ?s' = AList.update taskId ?t (tasks s)"
    and l: "listeners ?s' = listeners s" and c: "calls ?s' = calls s"
    using assms h by (simp_all add: scheduleTask_def emit_def Let_def)
  have run: "\<not> is_function h \<Longrightarrow>
       fst (runTask lib ?s' taskId oc t_run t_next' t_retry)
         = Inl (HandlerExecutionError taskId (JStr not_a_function)) \<and>
       map_option (\<lambda>t'. (status t', errors (task_stats t')))
         (map_of (tasks (snd (runTask lib ?s' taskId oc t_run t_next' t_retry))) taskId)
         = Some (Failed, 1) \<and>
       calls (snd (runTask lib ?s' taskId oc t_run t_next' t_retry)) = calls s"
    using assms(7,8)
    by (simp add: runTask_def runTask_begin_def runTask_settle_def runTask_failed_def invoke_def
        emit_def t l c update_conv' own_prop_def Error_obj_def Let_def)
  show ?thesis
    using False r run h by (auto simp: t update_conv')
qed

theorem scheduleTask_unchecked_handler_witness:
  "fst (scheduleTask node_cron service0 ''t1'' ''* * * * *'' (JObj []) [] 1000 1000)
     = Inr (''t1'', 1000) \<and>
   map_option task
     (map_of (tasks (snd (scheduleTask node_cron service0 ''t1'' ''* * * * *'' (JObj []) [] 1000 1000)))
        ''t1'') = Some JUndefined \<and>
   fst (runTask node_cron
          (snd (scheduleTask node_cron service0 ''t1'' ''* * * * *'' (JObj []) [] 1000 1000))
          ''t1'' (Resolved JNull) 2000 2001 2002)
     = Inl (HandlerExecutionError ''t1'' (JStr not_a_function)) \<and>
   map_option (\<lambda>t'. (status t', errors (task_stats t')))
     (map_of (tasks (snd (runTask node_cron
         (snd (scheduleTask node_cron service0 ''t1'' ''* * * * *'' (JObj []) [] 1000 1000))
         ''t1'' (Resolved JNull) 2000 2001 2002))) ''t1'')
     = Some (Failed, 1)"
proof -
  have a: "map_of (tasks service0) ''t1'' = None"
          "length (tasks service0) < options_maxTasks service0"
          "validate node_cron ''* * * * *''"
          "schedule_raises node_cron ''* * * * *'' (own_prop (task_options []) ''timezone'') = None"
          "\<not> is_function (JObj [])"
          "listeners service0 (TaskScheduled ''t1'' ''* * * * *'') = None"
          "listeners service0 (TaskRunning ''t1'') = None"
          "listeners service0 (TaskFailed ''t1'' (JStr not_a_function)) = None"
    by (simp_all add: service0_simps node_cron_simps)
  have n: "fst (scheduleTask node_cron service0 ''t1'' ''* * * * *'' (JObj []) [] 1000 1000)
     = Inr (''t1'', 1000)"
    by (simp add: scheduleTask_def emit_def service0_simps node_cron_simps task_options_empty
        own_prop_def calculateNextRun_node_cron Let_def)
  from scheduleTask_unchecked_handler [OF a, where oc = "Resolved JNull" and t_created = 1000
      and t_next = 1000 and t_run = 2000 and t_next' = 2001 and t_retry = 2002]
  show ?thesis
    using n by (auto simp: own_prop_def)
qed

subsection \<open>The next run after registration\<close>

text \<open>
  With a library whose tasks have no \<^verbatim>\<open>nextDate\<close>, every successful registration returns
  and stores the clock reading of the calculation as \<open>nextRun\<close>.
\<close>

lemma scheduleTask_nextRun_without_nextDate:
  assumes "fst (scheduleTask lib s taskId expr fn opts t_created t_next) = Inr r"
      and "\<And>e tz now. nextDate lib e tz now = None"
  shows "r = (taskId, t_next) \<and>
         map_sum id view_nextRun
           (getTaskInfo (snd (scheduleTask lib s taskId expr fn opts t_created t_next)) taskId)
           = Inr (Some t_next)"
proof -
  have c: "calculateNextRun lib e tz t_next = t_next" for e tz
    by (simp add: calculateNextRun_def assms(2) Let_def split: option.splits)
  show ?thesis
    using assms(1)
    by (auto simp: scheduleTask_def emit_def getTaskInfo_def view_of_def c Let_def update_conv'
        split: if_splits sum.splits option.splits prod.splits)
qed

text \<open>
  Claim C6. After a successful \<open>scheduleTask\<close> the \<open>nextRun\<close> that \<open>getTaskInfo\<close> reports
  is to be strictly greater than the clock reading at scheduling time, the earliest
  matching timestamp after it. The status is \<open>Scheduled\<close>, but the code does not compute
  that timestamp: \<open>calculateNextRun\<close> calls \<^verbatim>\<open>task.nextDate()\<close> on a task of the library,
  which has no such method, so the call raises and the \<^verbatim>\<open>catch\<close> returns the current
  date. Registered at clock reading 1000, \<^verbatim>\<open>t1\<close> has \<open>nextRun\<close> 1000.
\<close>

theorem scheduleTask_nextRun_is_clock:
  "fst (scheduleTask node_cron service0 ''t1'' ''* * * * *'' (JFun 0) [] 1000 1000)
     = Inr (''t1'', 1000) \<and>
   map_sum id view_status
     (getTaskInfo (snd (scheduleTask node_cron service0 ''t1'' ''* * * * *'' (JFun 0) [] 1000 1000))
        ''t1'') = Inr Scheduled \<and>
   map_sum id view_nextRun
     (getTaskInfo (snd (scheduleTask node_cron service0 ''t1'' ''* * * * *'' (JFun 0) [] 1000 1000))
        ''t1'') = Inr (Some 1000) \<and>
   calculateNextRun node_cron ''* * * * *'' (JStr ''UTC'') 1000 = 1000"
  by (simp add: scheduleTask_def emit_def getTaskInfo_def view_of_def service0_simps node_cron_simps
      task_options_empty own_prop_def calculateNextRun_node_cron Let_def)

end
